theory Spec2Isabelle
  imports Main "HOL-Library.Word"
begin

section \<open>Data model of the ZIP-backed datastore\<close>

text \<open>
  The development follows the second revision of \<^verbatim>\<open>zipcar.go\<close>, the one whose
  struct has the \<^verbatim>\<open>modified\<close> field and whose \<^verbatim>\<open>Delete\<close> is implemented.

  A Go byte slice is either \<^verbatim>\<open>nil\<close> or a sequence of bytes; the two are told apart
  by every \<^verbatim>\<open>!= nil\<close> test of the program, so a slice is a \<open>byte list option\<close> with
  \<open>None\<close> for \<^verbatim>\<open>nil\<close>. An empty, non-nil slice is \<open>Some []\<close>.
\<close>

type_synonym byte = "8 word"
type_synonym slice = "byte list option"
type_synonym key = string

datatype error = ErrNotFound | ErrUnimplemented | ErrLib string

text \<open>
  The content-identifier libraries (\<^verbatim>\<open>go-ipfs-ds-help\<close>, \<^verbatim>\<open>go-cid\<close>,
  \<^verbatim>\<open>go-multibase\<close>) are not part of the repository. The three functions the
  program calls are taken as a parameter; \<open>'c\<close> is the identifier type.
\<close>

datatype base = Base58BTC | Base32

record 'c cidlib =
  DsKeyToCid :: "key \<Rightarrow> error + 'c"
  Version :: "'c \<Rightarrow> nat"
  StringOfBase :: "'c \<Rightarrow> base \<Rightarrow> error + string"

text \<open>
  A \<^verbatim>\<open>*zip.File\<close> of the archive reader: the entry's name, the size its header
  declares (\<^verbatim>\<open>FileInfo().Size()\<close>), the error of \<^verbatim>\<open>Open()\<close> if it fails, and
  what \<^verbatim>\<open>ioutil.ReadAll\<close> returns on the opened entry: the bytes read and the error,
  if any.
\<close>

record zfile =
  Name :: string
  FileSize :: int
  OpenErr :: "error option"
  ReadAll :: "slice \<times> error option"

text \<open>
  The struct \<^verbatim>\<open>ZipDatastore\<close>. Both maps hold values that may be \<^verbatim>\<open>nil\<close>, and a
  key mapped to \<^verbatim>\<open>nil\<close> is still a key of the map. Of the field \<^verbatim>\<open>file\<close> the
  record keeps the path of the open file (\<open>path\<close>), which is all \<^verbatim>\<open>Close\<close> reads
  from it.
\<close>

record ZipDatastore =
  index :: "string \<rightharpoonup> zfile option"
  cache :: "string \<rightharpoonup> slice"
  path :: string
  modified :: bool

text \<open>Go's \<^verbatim>\<open>m[k]\<close>: the zero value \<^verbatim>\<open>nil\<close> when the key is absent.\<close>

definition lookup :: "('k \<rightharpoonup> 'v option) \<Rightarrow> 'k \<Rightarrow> 'v option" where
  "lookup m k = (case m k of None \<Rightarrow> None | Some v \<Rightarrow> v)"

section \<open>Key canonicalisation\<close>

definition dsKeyToCidString :: "'c cidlib \<Rightarrow> key \<Rightarrow> error + string" where
  "dsKeyToCidString L k =
     (case DsKeyToCid L k of
        Inl e \<Rightarrow> Inl e
      | Inr c \<Rightarrow>
          (case (if Version L c = 0 then StringOfBase L c Base58BTC
                 else StringOfBase L c Base32) of
             Inl e \<Rightarrow> Inl e
           | Inr cidStr \<Rightarrow> Inr cidStr))"

section \<open>Operations of an open store\<close>

definition has :: "ZipDatastore \<Rightarrow> string \<Rightarrow> bool \<times> error option" where
  "has zipDs cidStr =
     (lookup (cache zipDs) cidStr \<noteq> None \<or> lookup (index zipDs) cidStr \<noteq> None, None)"

definition Put :: "'c cidlib \<Rightarrow> key \<Rightarrow> slice \<Rightarrow> ZipDatastore \<Rightarrow> ZipDatastore \<times> error option" where
  "Put L k v zipDs =
     (case dsKeyToCidString L k of
        Inl e \<Rightarrow> (zipDs, Some e)
      | Inr cidStr \<Rightarrow>
          if fst (has zipDs cidStr) then (zipDs, None)
          else (zipDs\<lparr>modified := True, cache := (cache zipDs)(cidStr \<mapsto> v)\<rparr>, None))"

text \<open>
  \<^verbatim>\<open>Get\<close> assigns the result of \<^verbatim>\<open>ReadAll\<close> to the cache before it tests the
  error, so the bytes read so far stay cached when the read fails.
\<close>

definition Get :: "'c cidlib \<Rightarrow> key \<Rightarrow> ZipDatastore \<Rightarrow> ZipDatastore \<times> slice \<times> error option" where
  "Get L k zipDs =
     (case dsKeyToCidString L k of
        Inl e \<Rightarrow> (zipDs, None, Some e)
      | Inr cidStr \<Rightarrow>
          if lookup (cache zipDs) cidStr \<noteq> None
          then (zipDs, lookup (cache zipDs) cidStr, None)
          else
            (case lookup (index zipDs) cidStr of
               None \<Rightarrow> (zipDs, None, Some ErrNotFound)
             | Some f \<Rightarrow>
                 (case OpenErr f of
                    Some e \<Rightarrow> (zipDs, None, Some e)
                  | None \<Rightarrow>
                      (let zipDs' = zipDs\<lparr>cache := (cache zipDs)(cidStr \<mapsto> fst (ReadAll f))\<rparr>
                       in case snd (ReadAll f) of
                            Some e \<Rightarrow> (zipDs', None, Some e)
                          | None \<Rightarrow> (zipDs', lookup (cache zipDs') cidStr, None)))))"

definition Has :: "'c cidlib \<Rightarrow> key \<Rightarrow> ZipDatastore \<Rightarrow> bool \<times> error option" where
  "Has L k zipDs =
     (case dsKeyToCidString L k of
        Inl e \<Rightarrow> (False, Some e)
      | Inr cidStr \<Rightarrow> has zipDs cidStr)"

definition Delete :: "'c cidlib \<Rightarrow> key \<Rightarrow> ZipDatastore \<Rightarrow> ZipDatastore \<times> error option" where
  "Delete L k zipDs =
     (case dsKeyToCidString L k of
        Inl e \<Rightarrow> (zipDs, Some e)
      | Inr cidStr \<Rightarrow>
          (zipDs\<lparr>cache := (cache zipDs)(cidStr \<mapsto> None),
                 index := (index zipDs)(cidStr \<mapsto> None)\<rparr>, None))"


definition Query :: "ZipDatastore \<Rightarrow> unit option \<times> error option" where
  "Query zipDs = (None, Some ErrUnimplemented)"

section \<open>The backing file: opening and closing\<close>

text \<open>
  What a path of the file system holds: bytes that the archive reader rejects (an empty
  file, for one), or a container with the listed directory entries. The directory may
  name an entry twice.
\<close>

datatype content = NotZip | Zip "zfile list"

type_synonym filesystem = "string \<rightharpoonup> content"

text \<open>
  The outcomes of the system calls of \<^verbatim>\<open>NewDatastore\<close> that the file system's state
  does not decide: a failure of \<^verbatim>\<open>os.Stat\<close> other than "does not exist", of
  \<^verbatim>\<open>os.OpenFile\<close>, and of \<^verbatim>\<open>zip.NewReader\<close> on a well-formed container.
\<close>

record open_io =
  stat_err :: "error option"
  openfile_err :: "error option"
  newreader_err :: "error option"

text \<open>The loop \<^verbatim>\<open>for _, f := range reader.File { zipDs.index[f.Name] = f }\<close>.\<close>

fun read_keys :: "(string \<rightharpoonup> zfile option) \<Rightarrow> zfile list \<Rightarrow> (string \<rightharpoonup> zfile option)" where
  "read_keys ix [] = ix"
| "read_keys ix (f # fs) = read_keys (ix(Name f \<mapsto> Some f)) fs"

definition NewDatastore :: "open_io \<Rightarrow> string \<Rightarrow> filesystem \<Rightarrow> error + (ZipDatastore \<times> filesystem)" where
  "NewDatastore io p fsys =
     (case stat_err io of
        Some e \<Rightarrow> Inl e
      | None \<Rightarrow>
          (case openfile_err io of
             Some e \<Rightarrow> Inl e
           | None \<Rightarrow>
               (case fsys p of
                  None \<Rightarrow>
                    Inr (\<lparr>index = Map.empty, cache = Map.empty, path = p, modified = False\<rparr>,
                         fsys(p \<mapsto> NotZip))
                | Some NotZip \<Rightarrow> Inl (ErrLib ''zip: not a valid zip file'')
                | Some (Zip fs) \<Rightarrow>
                    (case newreader_err io of
                       Some e \<Rightarrow> Inl e
                     | None \<Rightarrow>
                         Inr (\<lparr>index = read_keys Map.empty fs, cache = Map.empty,
                               path = p, modified = False\<rparr>, fsys)))))"

text \<open>
  What \<^verbatim>\<open>Close\<close> gets from its environment: the orders in which the two
  \<^verbatim>\<open>range\<close> loops visit the keys of \<^verbatim>\<open>index\<close> and of \<^verbatim>\<open>cache\<close> (Go leaves
  them unspecified), the outcome of every call that may fail, and what a rewrite that
  fails after the truncation leaves at the path.
\<close>

record close_io =
  range_index :: "string list"
  range_cache :: "string list"
  close_err :: "error option"
  truncate_err :: "error option"
  createheader_err :: "string \<Rightarrow> error option"
  write_err :: "string \<Rightarrow> error option"
  writer_close_err :: "error option"
  file_close_err :: "error option"
  leftover :: content


text \<open>
  The first loop of \<^verbatim>\<open>Close\<close>. The error of \<^verbatim>\<open>ReadAll\<close> is assigned to a variable
  that is not read again; only the bytes are used.
\<close>

fun load_all :: "ZipDatastore \<Rightarrow> string list \<Rightarrow> error + ZipDatastore" where
  "load_all zipDs [] = Inr zipDs"
| "load_all zipDs (cidStr # rest) =
     (case lookup (index zipDs) cidStr of
        None \<Rightarrow> load_all zipDs rest
      | Some f \<Rightarrow>
          if lookup (cache zipDs) cidStr = None
          then (case OpenErr f of
                  Some e \<Rightarrow> Inl e
                | None \<Rightarrow>
                    load_all (zipDs\<lparr>cache := (cache zipDs)(cidStr \<mapsto> fst (ReadAll f))\<rparr>) rest)
          else load_all zipDs rest)"

text \<open>
  The archive library is outside the repository. Its contract, as the program relies on
  it: an entry written with \<^verbatim>\<open>CreateHeader\<close> and \<^verbatim>\<open>Write\<close> is listed by a
  later reader under the same name, with the number of bytes written as its size, and
  reads back as the bytes written.
\<close>

definition written :: "string \<Rightarrow> byte list \<Rightarrow> zfile" where
  "written cidStr bs =
     \<lparr>Name = cidStr, FileSize = int (length bs), OpenErr = None, ReadAll = (Some bs, None)\<rparr>"

text \<open>The second loop of \<^verbatim>\<open>Close\<close>; \<open>acc\<close> holds the entries written so far.\<close>

fun write_all :: "close_io \<Rightarrow> (string \<rightharpoonup> slice) \<Rightarrow> string list \<Rightarrow> zfile list \<Rightarrow> error + zfile list" where
  "write_all io c [] acc = Inr acc"
| "write_all io c (cidStr # rest) acc =
     (case lookup c cidStr of
        None \<Rightarrow> write_all io c rest acc
      | Some bs \<Rightarrow>
          (case createheader_err io cidStr of
             Some e \<Rightarrow> Inl e
           | None \<Rightarrow>
               (case write_err io cidStr of
                  Some e \<Rightarrow> Inl e
                | None \<Rightarrow> write_all io c rest (acc @ [written cidStr bs]))))"

text \<open>
  \<^verbatim>\<open>Close\<close> returns the file system and the error. The two deferred calls run in
  reverse order (the writer is closed first) and their errors are kept only when no
  earlier error is pending.
\<close>

definition Close :: "close_io \<Rightarrow> ZipDatastore \<Rightarrow> filesystem \<Rightarrow> filesystem \<times> error option" where
  "Close io zipDs fsys =
     (case (if modified zipDs then load_all zipDs (range_index io) else Inr zipDs) of
        Inl e \<Rightarrow> (fsys, Some e)
      | Inr zipDs' \<Rightarrow>
          if close_err io \<noteq> None \<or> \<not> modified zipDs' then (fsys, close_err io)
          else
            (case truncate_err io of
               Some e \<Rightarrow> (fsys, Some e)
             | None \<Rightarrow>
                 (case write_all io (cache zipDs') (range_cache io) [] of
                    Inl e \<Rightarrow> (fsys(path zipDs' \<mapsto> leftover io), Some e)
                  | Inr fs \<Rightarrow>
                      (case writer_close_err io of
                         Some e \<Rightarrow> (fsys(path zipDs' \<mapsto> leftover io), Some e)
                       | None \<Rightarrow>
                           (case file_close_err io of
                              Some e \<Rightarrow> (fsys(path zipDs' \<mapsto> leftover io), Some e)
                            | None \<Rightarrow> (fsys(path zipDs' \<mapsto> Zip fs), None))))))"

section \<open>Sequences of operations\<close>

text \<open>
  A caller's calls between open and close. An operation that returns an error leaves the
  store as the operation left it, and the caller goes on.
\<close>

datatype op = OpPut key slice | OpGet key | OpHas key | OpDelete key | OpGetSize key

fun step :: "'c cidlib \<Rightarrow> op \<Rightarrow> ZipDatastore \<Rightarrow> ZipDatastore" where
  "step L (OpPut k v) zipDs = fst (Put L k v zipDs)"
| "step L (OpGet k) zipDs = fst (Get L k zipDs)"
| "step L (OpHas k) zipDs = zipDs"
| "step L (OpDelete k) zipDs = fst (Delete L k zipDs)"
| "step L (OpGetSize k) zipDs = zipDs"

fun run :: "'c cidlib \<Rightarrow> op list \<Rightarrow> ZipDatastore \<Rightarrow> ZipDatastore" where
  "run L [] zipDs = zipDs"
| "run L (x # xs) zipDs = run L xs (step L x zipDs)"

fun is_read :: "op \<Rightarrow> bool" where
  "is_read (OpPut k v) = False"
| "is_read (OpDelete k) = False"
| "is_read (OpGet k) = True"
| "is_read (OpHas k) = True"
| "is_read (OpGetSize k) = True"

text \<open>Putting a list of records, each with a payload that is not \<^verbatim>\<open>nil\<close>.\<close>

definition puts :: "(key \<times> byte list) list \<Rightarrow> op list" where
  "puts recs = map (\<lambda>(k, bs). OpPut k (Some bs)) recs"


text \<open>One session: open the path, apply the operations, close; the file system left behind.\<close>

definition session ::
  "'c cidlib \<Rightarrow> open_io \<Rightarrow> close_io \<Rightarrow> string \<Rightarrow> op list \<Rightarrow> filesystem \<Rightarrow> error + filesystem" where
  "session L oi ci p ops fsys =
     (case NewDatastore oi p fsys of
        Inl e \<Rightarrow> Inl e
      | Inr (zipDs, fsys') \<Rightarrow>
          (case Close ci (run L ops zipDs) fsys' of
             (fsys'', None) \<Rightarrow> Inr fsys''
           | (fsys'', Some e) \<Rightarrow> Inl e))"

section \<open>A small instance for examples\<close>

text \<open>
  A stand-in for the identifier libraries, used only to run the definitions on concrete
  inputs: a key is a version digit followed by a digest, and the two string forms
  differ in their prefix.
\<close>

definition demo_lib :: "(nat \<times> string) cidlib" where
  "demo_lib =
     \<lparr>DsKeyToCid = (\<lambda>k. case k of
                         [] \<Rightarrow> Inl (ErrLib ''invalid cid'')
                       | c # h \<Rightarrow> Inr (if c = CHR ''0'' then 0 else 1, h)),
      Version = fst,
      StringOfBase = (\<lambda>c b. case b of
                              Base58BTC \<Rightarrow> Inr (''Qm'' @ snd c)
                            | Base32 \<Rightarrow> Inr (''b'' @ snd c))\<rparr>"

definition open_ok :: open_io where
  "open_ok = \<lparr>stat_err = None, openfile_err = None, newreader_err = None\<rparr>"

definition close_ok :: "string list \<Rightarrow> string list \<Rightarrow> close_io" where
  "close_ok ixs cs =
     \<lparr>range_index = ixs, range_cache = cs, close_err = None, truncate_err = None,
      createheader_err = (\<lambda>n. None), write_err = (\<lambda>n. None),
      writer_close_err = None, file_close_err = None, leftover = NotZip\<rparr>"

text \<open>The records of the test suite's raw nodes, under three version-1 keys.\<close>

definition test_zcar :: string where
  "test_zcar = ''test.zcar''"

definition aaaa :: "byte list" where
  "aaaa = [0x61, 0x61, 0x61, 0x61]"

definition bbbb :: "byte list" where
  "bbbb = [0x62, 0x62, 0x62, 0x62]"

definition cccc :: "byte list" where
  "cccc = [0x63, 0x63, 0x63, 0x63]"

definition three_records :: "(key \<times> byte list) list" where
  "three_records = [(''1aaaa'', aaaa), (''1bbbb'', bbbb), (''1cccc'', cccc)]"

definition three_names :: "string list" where
  "three_names = [''bcccc'', ''baaaa'', ''bbbbb'']"

definition three_files :: "zfile list" where
  "three_files = [written ''bcccc'' cccc, written ''baaaa'' aaaa, written ''bbbbb'' bbbb]"

text \<open>A store just opened on a path that did not exist, and one opened on the three records.\<close>

definition new_store :: ZipDatastore where
  "new_store = \<lparr>index = Map.empty, cache = Map.empty, path = test_zcar, modified = False\<rparr>"

definition three_store :: ZipDatastore where
  "three_store =
     \<lparr>index = read_keys Map.empty three_files, cache = Map.empty,
      path = test_zcar, modified = False\<rparr>"

text \<open>An entry whose stream opens but fails its checksum after two bytes.\<close>

definition damaged :: zfile where
  "damaged = \<lparr>Name = ''baaaa'', FileSize = 4, OpenErr = None,
               ReadAll = (Some [0x61, 0x61], Some (ErrLib ''zip: checksum error''))\<rparr>"

definition damaged_store :: ZipDatastore where
  "damaged_store =
     \<lparr>index = read_keys Map.empty [damaged], cache = Map.empty,
      path = test_zcar, modified = False\<rparr>"

section \<open>Evaluating the examples\<close>

lemma demo_canon:
  "dsKeyToCidString demo_lib (c # h) = Inr (if c = CHR ''0'' then ''Qm'' @ h else ''b'' @ h)"
  "dsKeyToCidString demo_lib [] = Inl (ErrLib ''invalid cid'')"
  by (simp_all add: dsKeyToCidString_def demo_lib_def)

lemma NewDatastore_new:
  "NewDatastore open_ok test_zcar Map.empty = Inr (new_store, [test_zcar \<mapsto> NotZip])"
  by (simp add: NewDatastore_def open_ok_def new_store_def)

lemma NewDatastore_three:
  "NewDatastore open_ok test_zcar [test_zcar \<mapsto> Zip three_files] =
     Inr (three_store, [test_zcar \<mapsto> Zip three_files])"
  by (simp add: NewDatastore_def open_ok_def three_store_def)

lemma NewDatastore_damaged:
  "NewDatastore open_ok test_zcar [test_zcar \<mapsto> Zip [damaged]] =
     Inr (damaged_store, [test_zcar \<mapsto> Zip [damaged]])"
  by (simp add: NewDatastore_def open_ok_def damaged_store_def)

lemma three_store_fields:
  "index three_store =
     [''bcccc'' \<mapsto> Some (written ''bcccc'' cccc), ''baaaa'' \<mapsto> Some (written ''baaaa'' aaaa),
      ''bbbbb'' \<mapsto> Some (written ''bbbbb'' bbbb)]"
  "cache three_store = Map.empty"
  "modified three_store = False"
  "path three_store = test_zcar"
  by (simp_all add: three_store_def three_files_def written_def)

lemma run_three:
  "run demo_lib (puts three_records) new_store =
     \<lparr>index = Map.empty,
      cache = [''baaaa'' \<mapsto> Some aaaa, ''bbbbb'' \<mapsto> Some bbbb, ''bcccc'' \<mapsto> Some cccc],
      path = test_zcar, modified = True\<rparr>"
  by (simp add: puts_def three_records_def new_store_def Put_def has_def lookup_def demo_canon)

lemma Close_three:
  "Close (close_ok [] three_names) (run demo_lib (puts three_records) new_store) fsys =
     (fsys(test_zcar \<mapsto> Zip three_files), None)"
  by (simp add: run_three Close_def close_ok_def three_names_def three_files_def lookup_def)

section \<open>Canonical names\<close>

text \<open>
  Claim C6. The canonical name of a key is a function of the key alone. When the key
  decodes to an identifier of version 0 the result is what the library's base58btc
  string form returns for it, for any other version what the base32 string form
  returns; when the key does not decode, the result is the decoder's error.
\<close>

theorem canonical_name:
  "(DsKeyToCid L k = Inr c \<and> Version L c = 0 \<longrightarrow>
      dsKeyToCidString L k = StringOfBase L c Base58BTC) \<and>
   (DsKeyToCid L k = Inr c \<and> Version L c \<noteq> 0 \<longrightarrow>
      dsKeyToCidString L k = StringOfBase L c Base32) \<and>
   (DsKeyToCid L k = Inl e \<longrightarrow> dsKeyToCidString L k = Inl e)"
  by (simp add: dsKeyToCidString_def split: sum.splits)

theorem canonical_name_witness:
  "dsKeyToCidString demo_lib ''0aaaa'' = Inr ''Qmaaaa'' \<and>
   dsKeyToCidString demo_lib ''1aaaa'' = Inr ''baaaa'' \<and>
   dsKeyToCidString demo_lib '''' = Inl (ErrLib ''invalid cid'')"
proof -
  have d0: "DsKeyToCid demo_lib ''0aaaa'' = Inr (0, ''aaaa'')"
    and d1: "DsKeyToCid demo_lib ''1aaaa'' = Inr (1, ''aaaa'')"
    and d2: "DsKeyToCid demo_lib '''' = Inl (ErrLib ''invalid cid'')"
    by (simp_all add: demo_lib_def)
  have v0: "Version demo_lib (0, ''aaaa'') = 0" and v1: "Version demo_lib (1, ''aaaa'') \<noteq> 0"
    by (simp_all add: demo_lib_def)
  have s0: "StringOfBase demo_lib (0, ''aaaa'') Base58BTC = Inr ''Qmaaaa''"
    and s1: "StringOfBase demo_lib (1, ''aaaa'') Base32 = Inr ''baaaa''"
    by (simp_all add: demo_lib_def)
  from canonical_name [of demo_lib "''0aaaa''" "(0, ''aaaa'')"] d0 v0 s0
  have a: "dsKeyToCidString demo_lib ''0aaaa'' = Inr ''Qmaaaa''" by simp
  from canonical_name [of demo_lib "''1aaaa''" "(1, ''aaaa'')"] d1 v1 s1
  have b: "dsKeyToCidString demo_lib ''1aaaa'' = Inr ''baaaa''" by simp
  from canonical_name [of demo_lib "''''" _ "ErrLib ''invalid cid''"] d2
  have c: "dsKeyToCidString demo_lib '''' = Inl (ErrLib ''invalid cid'')" by simp
  from a b c show ?thesis by simp
qed

section \<open>Within one session\<close>

lemma Delete_modified: "modified (fst (Delete L k zipDs)) = modified zipDs"
  by (simp add: Delete_def split: sum.splits)

lemma Put_keeps_modified: "modified zipDs \<Longrightarrow> modified (fst (Put L k v zipDs))"
  by (auto simp: Put_def split: sum.splits)

lemma step_keeps_modified: "modified zipDs \<Longrightarrow> modified (step L x zipDs)"
  by (cases x)
     (auto simp: Put_keeps_modified Delete_modified Get_def Let_def split: sum.splits option.splits)

lemma run_keeps_modified: "modified zipDs \<Longrightarrow> modified (run L xs zipDs)"
  by (induction xs arbitrary: zipDs) (auto simp: step_keeps_modified)

text \<open>
  Claim C1. The claim says that a successful \<^verbatim>\<open>Delete\<close> leaves the store's
  \<^verbatim>\<open>modified\<close> flag true. The function never assigns the flag
  (\<open>Delete_modified\<close>): on a store just opened, on a new path or on the archive of the
  three records, a delete of a valid key returns no error and the flag is still false.
\<close>

theorem Delete_leaves_flag_false:
  "NewDatastore open_ok test_zcar Map.empty = Inr (new_store, [test_zcar \<mapsto> NotZip]) \<and>
   snd (Delete demo_lib ''1aaaa'' new_store) = None \<and>
   modified (fst (Delete demo_lib ''1aaaa'' new_store)) = False \<and>
   NewDatastore open_ok test_zcar [test_zcar \<mapsto> Zip three_files] =
     Inr (three_store, [test_zcar \<mapsto> Zip three_files]) \<and>
   snd (Delete demo_lib ''1bbbb'' three_store) = None \<and>
   modified (fst (Delete demo_lib ''1bbbb'' three_store)) = False"
  by (simp add: NewDatastore_new NewDatastore_three Delete_modified)
     (simp add: Delete_def demo_canon new_store_def three_store_def)

text \<open>
  Claim C4, as stated, fails twice. A first payload that is the \<^verbatim>\<open>nil\<close> slice is
  stored as the deletion marker, so the second put is not a duplicate and its payload
  is what get returns. And when the name is already in the archive, neither put stores
  anything and get returns the archive's payload.
\<close>

theorem put_twice_counterexample:
  "snd (Put demo_lib ''1aaaa'' None new_store) = None \<and>
   snd (Put demo_lib ''1aaaa'' (Some bbbb) (fst (Put demo_lib ''1aaaa'' None new_store))) = None \<and>
   snd (Get demo_lib ''1aaaa''
         (fst (Put demo_lib ''1aaaa'' (Some bbbb) (fst (Put demo_lib ''1aaaa'' None new_store)))))
     = (Some bbbb, None) \<and>
   snd (Put demo_lib ''1aaaa'' (Some bbbb) three_store) = None \<and>
   snd (Put demo_lib ''1aaaa'' (Some cccc) (fst (Put demo_lib ''1aaaa'' (Some bbbb) three_store)))
     = None \<and>
   snd (Get demo_lib ''1aaaa''
         (fst (Put demo_lib ''1aaaa'' (Some cccc)
                (fst (Put demo_lib ''1aaaa'' (Some bbbb) three_store)))))
     = (Some aaaa, None) \<and>
   aaaa \<noteq> bbbb"
  by (simp add: Put_def Get_def has_def lookup_def demo_canon new_store_def three_store_fields
        written_def aaaa_def bbbb_def)

text \<open>
  Claim C4, amended. For a valid key whose name the store does not have yet, a payload
  \<open>v1\<close> that is not \<^verbatim>\<open>nil\<close> and any \<open>v2\<close>: both puts return no error, the second
  leaves the store as the first left it, and get then returns \<open>v1\<close>.
\<close>

theorem put_twice_first_wins:
  assumes "dsKeyToCidString L k = Inr cidStr" and "\<not> fst (has zipDs cidStr)"
  shows "snd (Put L k (Some v1) zipDs) = None \<and>
         Put L k v2 (fst (Put L k (Some v1) zipDs)) = (fst (Put L k (Some v1) zipDs), None) \<and>
         snd (Get L k (fst (Put L k v2 (fst (Put L k (Some v1) zipDs))))) = (Some v1, None)"
  using assms by (simp add: Put_def has_def Get_def lookup_def)

theorem put_twice_first_wins_witness:
  "dsKeyToCidString demo_lib ''1zzzz'' = Inr ''bzzzz'' \<and> \<not> fst (has three_store ''bzzzz'') \<and>
   snd (Put demo_lib ''1zzzz'' (Some aaaa) three_store) = None \<and>
   snd (Put demo_lib ''1zzzz'' (Some bbbb) (fst (Put demo_lib ''1zzzz'' (Some aaaa) three_store)))
     = None \<and>
   snd (Get demo_lib ''1zzzz''
         (fst (Put demo_lib ''1zzzz'' (Some bbbb)
                (fst (Put demo_lib ''1zzzz'' (Some aaaa) three_store)))))
     = (Some aaaa, None)"
proof -
  have k: "dsKeyToCidString demo_lib ''1zzzz'' = Inr ''bzzzz''" by (simp add: demo_canon)
  have h: "\<not> fst (has three_store ''bzzzz'')"
    by (simp add: has_def lookup_def three_store_fields)
  note t = put_twice_first_wins [OF k h, of aaaa "Some bbbb"]
  from t have t1: "snd (Put demo_lib ''1zzzz'' (Some aaaa) three_store) = None" by (rule conjunct1)
  from t have "Put demo_lib ''1zzzz'' (Some bbbb) (fst (Put demo_lib ''1zzzz'' (Some aaaa) three_store))
      = (fst (Put demo_lib ''1zzzz'' (Some aaaa) three_store), None)" by blast
  then have t2: "snd (Put demo_lib ''1zzzz'' (Some bbbb)
      (fst (Put demo_lib ''1zzzz'' (Some aaaa) three_store))) = None" by simp
  from t have t3: "snd (Get demo_lib ''1zzzz''
         (fst (Put demo_lib ''1zzzz'' (Some bbbb)
                (fst (Put demo_lib ''1zzzz'' (Some aaaa) three_store)))))
     = (Some aaaa, None)" by blast
  from k h t1 t2 t3 show ?thesis by blast
qed

text \<open>
  Claim C5. For every valid key and every store, whether or not the store had the key:
  delete returns no error, and on the store it leaves, has returns false and get fails
  with \<^verbatim>\<open>ErrNotFound\<close>.
\<close>

theorem delete_then_miss:
  assumes "dsKeyToCidString L k = Inr cidStr"
  shows "snd (Delete L k zipDs) = None \<and>
         Has L k (fst (Delete L k zipDs)) = (False, None) \<and>
         snd (Get L k (fst (Delete L k zipDs))) = (None, Some ErrNotFound)"
  using assms by (simp add: Delete_def Has_def has_def Get_def lookup_def)

theorem delete_then_miss_witness:
  "dsKeyToCidString demo_lib ''1aaaa'' = Inr ''baaaa'' \<and>
   Has demo_lib ''1aaaa'' three_store = (True, None) \<and>
   snd (Delete demo_lib ''1aaaa'' three_store) = None \<and>
   Has demo_lib ''1aaaa'' (fst (Delete demo_lib ''1aaaa'' three_store)) = (False, None) \<and>
   snd (Get demo_lib ''1aaaa'' (fst (Delete demo_lib ''1aaaa'' three_store)))
     = (None, Some ErrNotFound)"
proof -
  have k: "dsKeyToCidString demo_lib ''1aaaa'' = Inr ''baaaa''" by (simp add: demo_canon)
  have h: "Has demo_lib ''1aaaa'' three_store = (True, None)"
    by (simp add: Has_def k has_def lookup_def three_store_fields)
  from delete_then_miss [OF k, of three_store] k h show ?thesis by simp
qed

text \<open>
  Claim C10. For every valid key and every non-empty payload, in any store: delete and
  then put return no error, and on the store they leave get returns the payload and has
  returns true.
\<close>

theorem delete_then_put:
  assumes "dsKeyToCidString L k = Inr cidStr" and "v \<noteq> []"
  shows "snd (Delete L k zipDs) = None \<and>
         snd (Put L k (Some v) (fst (Delete L k zipDs))) = None \<and>
         snd (Get L k (fst (Put L k (Some v) (fst (Delete L k zipDs))))) = (Some v, None) \<and>
         Has L k (fst (Put L k (Some v) (fst (Delete L k zipDs)))) = (True, None)"
  using assms by (simp add: Delete_def Put_def Has_def has_def Get_def lookup_def)

theorem delete_then_put_witness:
  "dsKeyToCidString demo_lib ''1aaaa'' = Inr ''baaaa'' \<and> cccc \<noteq> [] \<and>
   snd (Delete demo_lib ''1aaaa'' three_store) = None \<and>
   snd (Put demo_lib ''1aaaa'' (Some cccc) (fst (Delete demo_lib ''1aaaa'' three_store))) = None \<and>
   snd (Get demo_lib ''1aaaa''
         (fst (Put demo_lib ''1aaaa'' (Some cccc) (fst (Delete demo_lib ''1aaaa'' three_store)))))
     = (Some cccc, None) \<and>
   Has demo_lib ''1aaaa''
     (fst (Put demo_lib ''1aaaa'' (Some cccc) (fst (Delete demo_lib ''1aaaa'' three_store))))
     = (True, None)"
proof -
  have k: "dsKeyToCidString demo_lib ''1aaaa'' = Inr ''baaaa''" by (simp add: demo_canon)
  have v: "cccc \<noteq> []" by (simp add: cccc_def)
  from delete_then_put [OF k v, of three_store] k v show ?thesis by simp
qed

section \<open>What the index holds\<close>

lemma step_index_entry:
  "index (step L x zipDs) n = Some (Some f) \<Longrightarrow> index zipDs n = Some (Some f)"
  by (cases x)
     (auto simp: Put_def Get_def Delete_def Let_def split: sum.splits option.splits if_splits)

lemma run_index_entry:
  "index (run L xs zipDs) n = Some (Some f) \<Longrightarrow> index zipDs n = Some (Some f)"
  by (induction xs arbitrary: zipDs) (auto dest: step_index_entry)

lemma read_keys_entry:
  "read_keys ix fs n = Some (Some f) \<Longrightarrow> ix n = Some (Some f) \<or> (f \<in> set fs \<and> Name f = n)"
  by (induction fs arbitrary: ix) (fastforce split: if_splits)+

lemma step_index_keys:
  "n \<in> dom (index (step L x zipDs)) \<Longrightarrow>
     n \<in> dom (index zipDs) \<or> (\<exists>k. x = OpDelete k \<and> dsKeyToCidString L k = Inr n)"
  by (cases x)
     (auto simp: Put_def Get_def Delete_def Let_def split: sum.splits option.splits if_splits)

lemma run_index_keys:
  "n \<in> dom (index (run L xs zipDs)) \<Longrightarrow>
     n \<in> dom (index zipDs) \<or> (\<exists>k. OpDelete k \<in> set xs \<and> dsKeyToCidString L k = Inr n)"
proof (induction xs arbitrary: zipDs)
  case Nil
  then show ?case by simp
next
  case (Cons x xs)
  from Cons.prems have "n \<in> dom (index (run L xs (step L x zipDs)))" by simp
  from Cons.IH [OF this] show ?case
  proof
    assume "n \<in> dom (index (step L x zipDs))"
    from step_index_keys [OF this] show ?thesis by auto
  next
    assume "\<exists>k. OpDelete k \<in> set xs \<and> dsKeyToCidString L k = Inr n"
    then show ?thesis by auto
  qed
qed

lemma read_keys_dom: "dom (read_keys ix fs) = dom ix \<union> Name ` set fs"
  by (induction fs arbitrary: ix) auto

lemma NewDatastore_index_keys:
  "NewDatastore oi p fsys = Inr (zipDs, fsys') \<Longrightarrow> n \<in> dom (index zipDs) \<Longrightarrow>
     \<exists>fs. fsys p = Some (Zip fs) \<and> n \<in> Name ` set fs"
proof -
  assume o: "NewDatastore oi p fsys = Inr (zipDs, fsys')" and n: "n \<in> dom (index zipDs)"
  show ?thesis
  proof (cases "fsys p")
    case None
    with o n show ?thesis by (auto simp: NewDatastore_def split: option.splits)
  next
    case (Some c)
    show ?thesis
    proof (cases c)
      case NotZip
      with o Some show ?thesis by (auto simp: NewDatastore_def split: option.splits)
    next
      case (Zip fs)
      with o Some have "index zipDs = read_keys Map.empty fs"
        by (auto simp: NewDatastore_def split: option.splits)
      with n have "n \<in> Name ` set fs" by (simp add: read_keys_dom)
      with Some Zip show ?thesis by simp
    qed
  qed
qed

lemma Delete_index_marker:
  "dsKeyToCidString L k = Inr m \<Longrightarrow>
     snd (Delete L k zipDs) = None \<and> index (fst (Delete L k zipDs)) m = Some None"
  by (simp add: Delete_def)

text \<open>
  Claim C9, as stated, fails: \<^verbatim>\<open>Delete\<close> assigns \<^verbatim>\<open>zipDs.index[name] = nil\<close>
  for every valid key, so deleting a key that the archive never held adds its name to
  the keys of the index.
\<close>

theorem index_keys_counterexample:
  "NewDatastore open_ok test_zcar [test_zcar \<mapsto> Zip three_files] =
     Inr (three_store, [test_zcar \<mapsto> Zip three_files]) \<and>
   ''bzzzz'' \<notin> Name ` set three_files \<and>
   ''bzzzz'' \<notin> dom (index three_store) \<and>
   ''bzzzz'' \<in> dom (index (run demo_lib [OpDelete ''1zzzz''] three_store))"
  by (simp add: NewDatastore_three)
     (simp add: three_store_fields three_files_def written_def Delete_def demo_canon)

text \<open>
  Claim C9, amended. After any sequence of operations on a store opened by
  \<^verbatim>\<open>NewDatastore\<close>: every name that the index maps to an entry (a reference that is
  not \<^verbatim>\<open>nil\<close>) is the name of that entry in the archive that was opened; every key
  of the index is the name of an entry of that archive or the name of a key that a
  \<^verbatim>\<open>Delete\<close> of the sequence was given; and a further \<^verbatim>\<open>Delete\<close> of any valid
  key returns no error and leaves the key's name in the index, mapped to \<^verbatim>\<open>nil\<close>,
  whether or not the archive had it.
\<close>

theorem index_entries_from_archive:
  assumes "NewDatastore oi p fsys = Inr (zipDs, fsys')"
  shows "(index (run L xs zipDs) n = Some (Some f) \<longrightarrow>
            (\<exists>fs. fsys p = Some (Zip fs) \<and> f \<in> set fs \<and> Name f = n)) \<and>
         (n' \<in> dom (index (run L xs zipDs)) \<longrightarrow>
            (\<exists>fs. fsys p = Some (Zip fs) \<and> n' \<in> Name ` set fs) \<or>
            (\<exists>k'. OpDelete k' \<in> set xs \<and> dsKeyToCidString L k' = Inr n')) \<and>
         (dsKeyToCidString L k = Inr m \<longrightarrow>
            snd (Delete L k (run L xs zipDs)) = None \<and>
            index (fst (Delete L k (run L xs zipDs))) m = Some None)"
proof (intro conjI impI)
  assume "index (run L xs zipDs) n = Some (Some f)"
  then have "index zipDs n = Some (Some f)" by (rule run_index_entry)
  with assms show "\<exists>fs. fsys p = Some (Zip fs) \<and> f \<in> set fs \<and> Name f = n"
    by (auto simp: NewDatastore_def split: option.splits content.splits dest: read_keys_entry)
next
  assume "n' \<in> dom (index (run L xs zipDs))"
  from run_index_keys [OF this]
  show "(\<exists>fs. fsys p = Some (Zip fs) \<and> n' \<in> Name ` set fs) \<or>
        (\<exists>k'. OpDelete k' \<in> set xs \<and> dsKeyToCidString L k' = Inr n')"
    using NewDatastore_index_keys [OF assms] by blast
next
  assume k: "dsKeyToCidString L k = Inr m"
  from Delete_index_marker [OF k]
  show "snd (Delete L k (run L xs zipDs)) = None" by blast
next
  assume k: "dsKeyToCidString L k = Inr m"
  from Delete_index_marker [OF k]
  show "index (fst (Delete L k (run L xs zipDs))) m = Some None" by blast
qed

theorem index_entries_from_archive_witness:
  "NewDatastore open_ok test_zcar [test_zcar \<mapsto> Zip three_files] =
     Inr (three_store, [test_zcar \<mapsto> Zip three_files]) \<and>
   index (run demo_lib [OpGet ''1aaaa'', OpDelete ''1zzzz'', OpPut ''1yyyy'' (Some aaaa)] three_store)
     ''baaaa'' = Some (Some (written ''baaaa'' aaaa)) \<and>
   (\<exists>fs. [test_zcar \<mapsto> Zip three_files] test_zcar = Some (Zip fs) \<and>
         written ''baaaa'' aaaa \<in> set fs \<and> Name (written ''baaaa'' aaaa) = ''baaaa'') \<and>
   ''bzzzz'' \<in> dom (index (run demo_lib
       [OpGet ''1aaaa'', OpDelete ''1zzzz'', OpPut ''1yyyy'' (Some aaaa)] three_store)) \<and>
   ''bzzzz'' \<notin> Name ` set three_files \<and>
   (\<exists>k'. OpDelete k' \<in> set [OpGet ''1aaaa'', OpDelete ''1zzzz'', OpPut ''1yyyy'' (Some aaaa)] \<and>
         dsKeyToCidString demo_lib k' = Inr ''bzzzz'') \<and>
   dsKeyToCidString demo_lib ''1qqqq'' = Inr ''bqqqq'' \<and>
   ''bqqqq'' \<notin> Name ` set three_files \<and>
   snd (Delete demo_lib ''1qqqq'' (run demo_lib
       [OpGet ''1aaaa'', OpDelete ''1zzzz'', OpPut ''1yyyy'' (Some aaaa)] three_store)) = None \<and>
   index (fst (Delete demo_lib ''1qqqq'' (run demo_lib
       [OpGet ''1aaaa'', OpDelete ''1zzzz'', OpPut ''1yyyy'' (Some aaaa)] three_store))) ''bqqqq''
     = Some None"
proof -
  let ?xs = "[OpGet ''1aaaa'', OpDelete ''1zzzz'', OpPut ''1yyyy'' (Some aaaa)]"
  have i: "index (run demo_lib ?xs three_store) ''baaaa'' = Some (Some (written ''baaaa'' aaaa))"
    by (simp add: Get_def Delete_def Put_def has_def lookup_def demo_canon three_store_fields
          written_def)
  have d: "''bzzzz'' \<in> dom (index (run demo_lib ?xs three_store))"
    by (simp add: Get_def Delete_def Put_def has_def lookup_def demo_canon three_store_fields
          written_def)
  have z: "''bzzzz'' \<notin> Name ` set three_files" and q: "''bqqqq'' \<notin> Name ` set three_files"
    by (simp_all add: three_files_def written_def)
  have k: "dsKeyToCidString demo_lib ''1qqqq'' = Inr ''bqqqq''" by (simp add: demo_canon)
  note t = index_entries_from_archive [OF NewDatastore_three, of demo_lib ?xs
             "''baaaa''" "written ''baaaa'' aaaa" "''bzzzz''" "''1qqqq''" "''bqqqq''"]
  from t i have a: "\<exists>fs. [test_zcar \<mapsto> Zip three_files] test_zcar = Some (Zip fs) \<and>
         written ''baaaa'' aaaa \<in> set fs \<and> Name (written ''baaaa'' aaaa) = ''baaaa''" by blast
  from t d have "(\<exists>fs. [test_zcar \<mapsto> Zip three_files] test_zcar = Some (Zip fs) \<and>
                      ''bzzzz'' \<in> Name ` set fs) \<or>
      (\<exists>k'. OpDelete k' \<in> set ?xs \<and> dsKeyToCidString demo_lib k' = Inr ''bzzzz'')" by blast
  with z have b: "\<exists>k'. OpDelete k' \<in> set ?xs \<and> dsKeyToCidString demo_lib k' = Inr ''bzzzz''"
    by auto
  from t k have c: "snd (Delete demo_lib ''1qqqq'' (run demo_lib ?xs three_store)) = None"
    and c': "index (fst (Delete demo_lib ''1qqqq'' (run demo_lib ?xs three_store))) ''bqqqq''
              = Some None" by blast+
  from NewDatastore_three i a d z b k q c c' show ?thesis by blast
qed

section \<open>Closing a store that was only read\<close>

lemma step_read_modified: "is_read x \<Longrightarrow> modified (step L x zipDs) = modified zipDs"
  by (cases x) (auto simp: Get_def Let_def split: sum.splits option.splits)

lemma run_read_modified: "list_all is_read xs \<Longrightarrow> modified (run L xs zipDs) = modified zipDs"
  by (induction xs arbitrary: zipDs) (auto simp: step_read_modified)

lemma Close_unmodified: "\<not> modified zipDs \<Longrightarrow> Close ci zipDs fsys = (fsys, close_err ci)"
  by (simp add: Close_def)

lemma NewDatastore_fresh:
  "NewDatastore oi p fsys = Inr (zipDs, fsys') \<Longrightarrow>
     \<not> modified zipDs \<and> cache zipDs = Map.empty \<and> path zipDs = p"
  by (auto simp: NewDatastore_def split: option.splits content.splits)

lemma NewDatastore_existing:
  "NewDatastore oi p fsys = Inr (zipDs, fsys') \<Longrightarrow> fsys p = Some c \<Longrightarrow> fsys' = fsys"
  by (auto simp: NewDatastore_def split: option.splits content.splits)

text \<open>
  Claim C8. When a store is opened on a path that exists and only get, has and size are
  called on it, in any number and with any keys, \<^verbatim>\<open>Close\<close> writes nothing: it returns
  the result of closing the file handle, and the file system, with the archive's entries
  and payloads, is as it was before the open.
\<close>

theorem unmodified_close:
  assumes "fsys p = Some c"
    and "NewDatastore oi p fsys = Inr (zipDs, fsys')"
    and "list_all is_read xs"
  shows "Close ci (run L xs zipDs) fsys' = (fsys, close_err ci)"
proof -
  from assms(2) have "\<not> modified zipDs" by (simp add: NewDatastore_fresh)
  with assms(3) have "\<not> modified (run L xs zipDs)" by (simp add: run_read_modified)
  moreover from assms(2,1) have "fsys' = fsys" by (rule NewDatastore_existing)
  ultimately show ?thesis by (simp add: Close_unmodified)
qed

theorem unmodified_close_witness:
  "[test_zcar \<mapsto> Zip three_files] test_zcar = Some (Zip three_files) \<and>
   NewDatastore open_ok test_zcar [test_zcar \<mapsto> Zip three_files] =
     Inr (three_store, [test_zcar \<mapsto> Zip three_files]) \<and>
   list_all is_read [OpGet ''1aaaa'', OpHas ''1bbbb'', OpGetSize ''1cccc'', OpGet ''1zzzz''] \<and>
   Close (close_ok three_names [''baaaa''])
     (run demo_lib [OpGet ''1aaaa'', OpHas ''1bbbb'', OpGetSize ''1cccc'', OpGet ''1zzzz'']
        three_store)
     [test_zcar \<mapsto> Zip three_files]
   = ([test_zcar \<mapsto> Zip three_files], None)"
proof -
  have e: "[test_zcar \<mapsto> Zip three_files] test_zcar = Some (Zip three_files)" by simp
  have r: "list_all is_read [OpGet ''1aaaa'', OpHas ''1bbbb'', OpGetSize ''1cccc'', OpGet ''1zzzz'']"
    by simp
  have c: "close_err (close_ok three_names [''baaaa'']) = None" by (simp add: close_ok_def)
  from unmodified_close [OF e NewDatastore_three r, of "close_ok three_names [''baaaa'']" demo_lib]
  have "Close (close_ok three_names [''baaaa''])
     (run demo_lib [OpGet ''1aaaa'', OpHas ''1bbbb'', OpGetSize ''1cccc'', OpGet ''1zzzz'']
        three_store)
     [test_zcar \<mapsto> Zip three_files]
   = ([test_zcar \<mapsto> Zip three_files], None)" unfolding c .
  with e NewDatastore_three r show ?thesis by blast
qed

section \<open>Closing after a delete, and after a failed read\<close>

text \<open>
  Claim C2. Since \<^verbatim>\<open>Delete\<close> leaves \<^verbatim>\<open>modified\<close> false (the defect of claim C1),
  a session that only deletes closes without a rewrite. The three records are put and
  the store is closed, which writes the archive; the second session deletes the second
  key and closes, and the archive is the same; the third open still has the second
  key, with its payload.
\<close>

theorem delete_does_not_survive_close:
  "session demo_lib open_ok (close_ok [] three_names) test_zcar (puts three_records) Map.empty
     = Inr [test_zcar \<mapsto> Zip three_files] \<and>
   session demo_lib open_ok (close_ok three_names [''bbbbb'']) test_zcar [OpDelete ''1bbbb'']
       [test_zcar \<mapsto> Zip three_files]
     = Inr [test_zcar \<mapsto> Zip three_files] \<and>
   NewDatastore open_ok test_zcar [test_zcar \<mapsto> Zip three_files] =
     Inr (three_store, [test_zcar \<mapsto> Zip three_files]) \<and>
   Has demo_lib ''1bbbb'' three_store = (True, None) \<and>
   snd (Get demo_lib ''1bbbb'' three_store) = (Some bbbb, None)"
proof -
  have a: "session demo_lib open_ok (close_ok [] three_names) test_zcar (puts three_records)
             Map.empty = Inr [test_zcar \<mapsto> Zip three_files]"
    by (simp add: session_def NewDatastore_new Close_three)
  have "\<not> modified (run demo_lib [OpDelete ''1bbbb''] three_store)"
    by (simp add: Delete_modified three_store_fields)
  then have b: "session demo_lib open_ok (close_ok three_names [''bbbbb'']) test_zcar
                  [OpDelete ''1bbbb''] [test_zcar \<mapsto> Zip three_files]
                = Inr [test_zcar \<mapsto> Zip three_files]"
    by (simp add: session_def NewDatastore_three Close_unmodified close_ok_def)
  have c: "Has demo_lib ''1bbbb'' three_store = (True, None)"
    by (simp add: Has_def has_def lookup_def demo_canon three_store_fields)
  have d: "snd (Get demo_lib ''1bbbb'' three_store) = (Some bbbb, None)"
    by (simp add: Get_def lookup_def demo_canon three_store_fields written_def)
  from a b NewDatastore_three c d show ?thesis by blast
qed

lemma Close_returns_open_error:
  "modified zipDs \<Longrightarrow> load_all zipDs (range_index ci) = Inl e \<Longrightarrow>
     Close ci zipDs fsys = (fsys, Some e)"
  by (simp add: Close_def)

text \<open>
  Claim C7. \<^verbatim>\<open>Close\<close> returns the error of \<^verbatim>\<open>f.Open()\<close> in its first loop, but it
  assigns the error of \<^verbatim>\<open>ioutil.ReadAll\<close> to a variable that it never tests. On an
  archive whose entry fails while its payload is read, \<^verbatim>\<open>Get\<close> returns the error;
  \<^verbatim>\<open>Close\<close>, after a put of another key, returns no error and writes the two bytes
  read before the failure as the entry's payload.
\<close>

theorem Close_drops_read_error:
  "NewDatastore open_ok test_zcar [test_zcar \<mapsto> Zip [damaged]] =
     Inr (damaged_store, [test_zcar \<mapsto> Zip [damaged]]) \<and>
   snd (Get demo_lib ''1aaaa'' damaged_store) = (None, Some (ErrLib ''zip: checksum error'')) \<and>
   Close (close_ok [''baaaa''] [''baaaa'', ''bbbbb''])
     (fst (Put demo_lib ''1bbbb'' (Some bbbb) damaged_store))
     [test_zcar \<mapsto> Zip [damaged]]
   = ([test_zcar \<mapsto> Zip [written ''baaaa'' [0x61, 0x61], written ''bbbbb'' bbbb]], None)"
proof -
  have g: "snd (Get demo_lib ''1aaaa'' damaged_store) = (None, Some (ErrLib ''zip: checksum error''))"
    by (simp add: Get_def lookup_def demo_canon damaged_store_def damaged_def)
  have p: "fst (Put demo_lib ''1bbbb'' (Some bbbb) damaged_store) =
      \<lparr>index = [''baaaa'' \<mapsto> Some damaged], cache = [''bbbbb'' \<mapsto> Some bbbb],
       path = test_zcar, modified = True\<rparr>"
    by (simp add: Put_def has_def lookup_def demo_canon damaged_store_def damaged_def)
  have c: "Close (close_ok [''baaaa''] [''baaaa'', ''bbbbb''])
     (fst (Put demo_lib ''1bbbb'' (Some bbbb) damaged_store))
     [test_zcar \<mapsto> Zip [damaged]]
   = ([test_zcar \<mapsto> Zip [written ''baaaa'' [0x61, 0x61], written ''bbbbb'' bbbb]], None)"
    unfolding p by (simp add: Close_def close_ok_def lookup_def damaged_def)
  from NewDatastore_damaged g c show ?thesis by blast
qed

theorem Close_drops_read_error_witness:
  "snd (Close (close_ok [''baaaa''] [''baaaa'', ''bbbbb''])
         (fst (Put demo_lib ''1bbbb'' (Some bbbb) damaged_store))
         [test_zcar \<mapsto> Zip [damaged]]) = None \<and>
   fst (Close (close_ok [''baaaa''] [''baaaa'', ''bbbbb''])
         (fst (Put demo_lib ''1bbbb'' (Some bbbb) damaged_store))
         [test_zcar \<mapsto> Zip [damaged]]) test_zcar
     = Some (Zip [written ''baaaa'' [0x61, 0x61], written ''bbbbb'' bbbb])"
  using Close_drops_read_error by simp

section \<open>Round trip through a rewrite\<close>





















end
